theory Spec2Isabelle
  imports Main "HOL-Library.Word" "HOL-Library.Signed_Division"
begin

unbundle bit_operations_syntax

section \<open>Machine types and C run-time faults\<close>

type_synonym u8 = "8 word"
type_synonym u16 = "16 word"
type_synonym u32 = "32 word"
type_synonym i32 = "32 word"
type_synonym i64 = "64 word"

text \<open>
  Signed C integers are words read through \<^const>\<open>sint\<close>; the arithmetic on them wraps,
  and the theorems below show where it does not. What C leaves undefined is a value of
  type \<open>fault\<close>: an access past the end of an array, an integer division by zero, and
  the one signed division whose quotient does not fit.
\<close>

datatype fault = OutOfBounds | DivideByZero | SignedOverflow

text \<open>The errno values of Zephyr's libc, and C's \<open>true\<close> and \<open>false\<close> as \<open>int\<close>.\<close>

definition EIO :: int where "EIO = 5"
definition EINVAL :: int where "EINVAL = 22"
definition ENOTSUP :: int where "ENOTSUP = 134"
definition c_true :: int where "c_true = 1"
definition c_false :: int where "c_false = 0"

section \<open>Checksum codec\<close>

text \<open>
  \<open>bq35100_compute_checksum\<close>: the loop counter \<open>x\<close> is a \<open>uint8_t\<close> that starts at 1 and
  is compared with the \<open>size_t\<close> length; \<open>pos\<close> is how far the pointer \<open>data\<close> has moved
  into the array it points to, whose contents are the list.
\<close>

function checksum_loop :: "u8 list \<Rightarrow> nat \<Rightarrow> u8 \<Rightarrow> nat \<Rightarrow> u8 \<Rightarrow> fault + u8" where
  "checksum_loop data len x pos checksum =
     (if unat x \<le> len then
        (if pos < length data
         then checksum_loop data len (x + 1) (Suc pos) (checksum + data ! pos)
         else Inl OutOfBounds)
      else Inr checksum)"
  by pat_completeness auto
termination
  by (relation "measure (\<lambda>(data, len, x, pos, checksum). length data - pos)") auto

declare checksum_loop.simps [simp del]

definition bq35100_compute_checksum :: "u8 list option \<Rightarrow> nat \<Rightarrow> fault + u8" where
  "bq35100_compute_checksum data len =
     (case data of
        None \<Rightarrow> Inr 0
      | Some d \<Rightarrow>
          (case checksum_loop d len 1 0 0 of
             Inl f \<Rightarrow> Inl f
           | Inr checksum \<Rightarrow> Inr (0xFF - checksum)))"

section \<open>Property engine: conversions\<close>

text \<open>Little-endian loads of Zephyr's \<open>sys/byteorder.h\<close>, reading at an offset of a buffer.\<close>

definition sys_get_le16 :: "u8 list \<Rightarrow> nat \<Rightarrow> fault + u16" where
  "sys_get_le16 src off =
     (if off + 1 < length src
      then Inr (push_bit 8 (ucast (src ! (off + 1))) OR ucast (src ! off))
      else Inl OutOfBounds)"

definition sys_get_le32 :: "u8 list \<Rightarrow> nat \<Rightarrow> fault + u32" where
  "sys_get_le32 src off =
     (if off + 3 < length src
      then Inr (push_bit 24 (ucast (src ! (off + 3))) OR push_bit 16 (ucast (src ! (off + 2)))
                OR push_bit 8 (ucast (src ! (off + 1))) OR ucast (src ! off))
      else Inl OutOfBounds)"

text \<open>
  \<open>calculate_remaining_capacity\<close>, with its two 64-bit intermediates named as in the
  source. The casts to \<open>int64_t\<close> sign-extend; the final cast to \<open>int32_t\<close> keeps the low
  32 bits.
\<close>

definition design_capacity_uah :: "i32 \<Rightarrow> i64" where
  "design_capacity_uah design_capacity = scast design_capacity * 1000"

definition remaining_capacity_sum :: "i32 \<Rightarrow> i32 \<Rightarrow> i64" where
  "remaining_capacity_sum design_capacity accumulated_capacity =
     design_capacity_uah design_capacity + scast accumulated_capacity"

definition remaining_capacity_clamped :: "i32 \<Rightarrow> i32 \<Rightarrow> i64" where
  "remaining_capacity_clamped design_capacity accumulated_capacity =
     (let remaining_capacity = remaining_capacity_sum design_capacity accumulated_capacity
      in if remaining_capacity <s 0 then 0
         else if design_capacity_uah design_capacity <s remaining_capacity
              then design_capacity_uah design_capacity
              else remaining_capacity)"

definition calculate_remaining_capacity :: "i32 \<Rightarrow> i32 \<Rightarrow> i32" where
  "calculate_remaining_capacity design_capacity accumulated_capacity =
     ucast (remaining_capacity_clamped design_capacity accumulated_capacity)"

text \<open>Zephyr's \<open>CLAMP(val, low, high)\<close> of \<open>sys/util.h\<close>, on signed 64-bit values.\<close>

definition CLAMP :: "i64 \<Rightarrow> i64 \<Rightarrow> i64 \<Rightarrow> i64" where
  "CLAMP val low high = (if val \<le>s low then low else if val <s high then val else high)"

text \<open>
  C's signed 64-bit division: it truncates towards zero, and is undefined for a zero
  divisor and for \<open>INT64_MIN / -1\<close>.
\<close>

definition c_div64 :: "i64 \<Rightarrow> i64 \<Rightarrow> fault + i64" where
  "c_div64 a b =
     (if b = 0 then Inl DivideByZero
      else if sint a = - (2 ^ 63) \<and> sint b = - 1 then Inl SignedOverflow
      else Inr (word_of_int (sint a sdiv sint b)))"

datatype fuel_gauge_prop_t =
    FUEL_GAUGE_VOLTAGE
  | FUEL_GAUGE_CURRENT
  | FUEL_GAUGE_DESIGN_CAPACITY
  | FUEL_GAUGE_ABSOLUTE_STATE_OF_CHARGE
  | FUEL_GAUGE_REMAINING_CAPACITY
  | FUEL_GAUGE_OTHER nat

text \<open>
  \<open>union fuel_gauge_prop_val\<close>: the member that was written and the \<open>int32_t\<close> value the
  driver assigned to it.
\<close>

datatype fuel_gauge_prop_val =
    Val_unset
  | Val_voltage i32
  | Val_current i32
  | Val_design_cap i32
  | Val_remaining_capacity i32
  | Val_absolute_state_of_charge i32

definition process_capacity ::
  "fuel_gauge_prop_t \<Rightarrow> u8 list \<Rightarrow> fault + (int \<times> fuel_gauge_prop_val)" where
  "process_capacity prop buffer =
     (case sys_get_le32 buffer 0 of
        Inl f \<Rightarrow> Inl f
      | Inr acc \<Rightarrow>
     (case sys_get_le16 buffer 4 of
        Inl f \<Rightarrow> Inl f
      | Inr d \<Rightarrow>
          (let accumulated = acc;
               design = (ucast d :: i32);
               remaining = calculate_remaining_capacity design accumulated
           in if prop = FUEL_GAUGE_REMAINING_CAPACITY
              then Inr (0, Val_remaining_capacity remaining)
              else if design \<le>s 0
                   then Inr (0, Val_absolute_state_of_charge 0)
                   else (case c_div64 (scast remaining * 100) (scast design * 1000) of
                           Inl f \<Rightarrow> Inl f
                         | Inr soc \<Rightarrow>
                             Inr (0, Val_absolute_state_of_charge (ucast (CLAMP soc 0 100)))))))"

text \<open>
  \<open>bq35100_process_prop\<close>. A null \<open>buffer\<close> or \<open>val\<close> is \<open>None\<close>; the result is the
  returned code and what \<open>val\<close> points to afterwards.
\<close>

definition bq35100_process_prop ::
  "fuel_gauge_prop_t \<Rightarrow> u8 list option \<Rightarrow> fuel_gauge_prop_val option
     \<Rightarrow> fault + (int \<times> fuel_gauge_prop_val option)" where
  "bq35100_process_prop prop buffer val =
     (case (buffer, val) of
        (Some buf, Some v) \<Rightarrow>
          (case prop of
             FUEL_GAUGE_VOLTAGE \<Rightarrow>
               (case sys_get_le16 buf 0 of
                  Inl f \<Rightarrow> Inl f
                | Inr raw \<Rightarrow>
                    (let temp_val = (ucast raw :: u32)
                     in Inr (0, Some (Val_voltage (temp_val * 1000)))))
           | FUEL_GAUGE_CURRENT \<Rightarrow>
               (case sys_get_le16 buf 0 of
                  Inl f \<Rightarrow> Inl f
                | Inr raw \<Rightarrow>
                    (let temp_val = (ucast raw :: u32)
                     in Inr (0, Some (Val_current (temp_val * 1000)))))
           | FUEL_GAUGE_DESIGN_CAPACITY \<Rightarrow>
               (case sys_get_le16 buf 0 of
                  Inl f \<Rightarrow> Inl f
                | Inr raw \<Rightarrow> Inr (0, Some (Val_design_cap (ucast raw))))
           | FUEL_GAUGE_ABSOLUTE_STATE_OF_CHARGE \<Rightarrow>
               (case process_capacity prop buf of
                  Inl f \<Rightarrow> Inl f
                | Inr (result, v') \<Rightarrow> Inr (result, Some v'))
           | FUEL_GAUGE_REMAINING_CAPACITY \<Rightarrow>
               (case process_capacity prop buf of
                  Inl f \<Rightarrow> Inl f
                | Inr (result, v') \<Rightarrow> Inr (result, Some v'))
           | FUEL_GAUGE_OTHER n \<Rightarrow> Inr (- ENOTSUP, Some v))
      | _ \<Rightarrow> Inr (- EINVAL, val))"

text \<open>
  The little-endian store \<open>sys_put_le16\<close> of the same header, and the four bytes of a
  32-bit register as the device sends them.
\<close>

definition sys_put_le16 :: "u16 \<Rightarrow> u8 list" where
  "sys_put_le16 val = [ucast val, ucast (drop_bit 8 val)]"

definition le32_bytes :: "u32 \<Rightarrow> u8 list" where
  "le32_bytes val =
     [ucast val, ucast (drop_bit 8 val), ucast (drop_bit 16 val), ucast (drop_bit 24 val)]"

section \<open>Transport, timing and driver state\<close>

datatype bq35100_security_t =
    SECURITY_UNKNOWN
  | SECURITY_FULL_ACCESS
  | SECURITY_UNSEALED
  | SECURITY_SEALED

fun security_val :: "bq35100_security_t \<Rightarrow> int" where
  "security_val SECURITY_UNKNOWN = 0"
| "security_val SECURITY_FULL_ACCESS = 1"
| "security_val SECURITY_UNSEALED = 2"
| "security_val SECURITY_SEALED = 3"

text \<open>
  The constants the driver takes from \<open>bq35100.h\<close> and from Kconfig are parameters of the
  model, and so are the two things C leaves to the implementation: the signedness of plain
  \<open>char\<close>, and \<open>junk\<close>, the bytes that uninitialised automatic storage holds.
\<close>

record bq35100_defs =
  REG_CONTROL_STATUS :: u8
  REG_MAC :: u8
  REG_MAC_DATA_SUM :: u8
  MAC_CMD_SEALED :: u16
  FLASH_FULL_ACCESS_CODES :: u16
  DEFAULT_SEAL_CODES :: u32
  MAX_RETRIES :: int
  char_signed :: bool
  junk :: "nat \<Rightarrow> u8"

text \<open>
  The bus is scripted: every I2C transfer takes the next reply, its return code and, for a
  read, the bytes the device sends; when the script is used up the transfer fails with
  \<open>-EIO\<close>. Every transfer and every sleep is appended to the log.
\<close>

datatype i2c_reply = Reply int "u8 list"

datatype bus_event = I2C_Write "u8 list" | I2C_Read nat | Sleep nat

record bq35100_state =
  g_security_mode :: bq35100_security_t
  i2c_replies :: "i2c_reply list"
  i2c_log :: "bus_event list"

definition uninit_bytes :: "bq35100_defs \<Rightarrow> nat \<Rightarrow> u8 list" where
  "uninit_bytes defs n = map (junk defs) [0..<n]"

definition uninit_u16 :: "bq35100_defs \<Rightarrow> u16" where
  "uninit_u16 defs = push_bit 8 (ucast (junk defs 1)) OR ucast (junk defs 0)"

definition next_reply :: "bq35100_state \<Rightarrow> i2c_reply" where
  "next_reply s = (case i2c_replies s of [] \<Rightarrow> Reply (- EIO) [] | r # rs \<Rightarrow> r)"

definition i2c_write_dt :: "u8 list \<Rightarrow> bq35100_state \<Rightarrow> int \<times> bq35100_state" where
  "i2c_write_dt bytes s =
     (case next_reply s of
        Reply rc sent \<Rightarrow>
          (rc, s\<lparr>i2c_replies := tl (i2c_replies s), i2c_log := i2c_log s @ [I2C_Write bytes]\<rparr>))"

text \<open>
  A successful read stores \<open>read_len\<close> bytes at the start of the buffer (a short reply is
  padded with zeros); a failed one leaves the buffer as it was.
\<close>

definition i2c_read_dt ::
  "u8 list \<Rightarrow> nat \<Rightarrow> bq35100_state \<Rightarrow> int \<times> u8 list \<times> bq35100_state" where
  "i2c_read_dt read_data read_len s =
     (case next_reply s of
        Reply rc sent \<Rightarrow>
          (rc,
           (if rc = 0 then take read_len (sent @ replicate read_len 0) @ drop read_len read_data
            else read_data),
           s\<lparr>i2c_replies := tl (i2c_replies s), i2c_log := i2c_log s @ [I2C_Read read_len]\<rparr>))"

definition k_sleep :: "nat \<Rightarrow> bq35100_state \<Rightarrow> bq35100_state" where
  "k_sleep millis s = s\<lparr>i2c_log := i2c_log s @ [Sleep millis]\<rparr>"

definition BQ35100_FLASH_WRITE_DELAY :: nat where
  "BQ35100_FLASH_WRITE_DELAY = 100"

section \<open>Register access\<close>

definition bq35100_write :: "u8 list \<Rightarrow> nat \<Rightarrow> bq35100_state \<Rightarrow> int \<times> bq35100_state" where
  "bq35100_write data len s = i2c_write_dt (take len data) s"

definition bq35100_read ::
  "u8 list \<Rightarrow> nat \<Rightarrow> u8 list \<Rightarrow> nat \<Rightarrow> bq35100_state \<Rightarrow> int \<times> u8 list \<times> bq35100_state" where
  "bq35100_read write_data write_len read_data read_len s =
     (let (result, s1) = i2c_write_dt (take write_len write_data) s
      in if result \<noteq> 0 then (result, read_data, s1)
         else i2c_read_dt read_data read_len s1)"

text \<open>
  \<open>bq35100_send_data\<close> copies \<open>len\<close> bytes behind the address into a three-byte array and
  always sends all three; a copy that leaves the source or the array is a fault.
\<close>

definition bq35100_send_data ::
  "bq35100_defs \<Rightarrow> u8 \<Rightarrow> u8 list \<Rightarrow> nat \<Rightarrow> bq35100_state
     \<Rightarrow> fault + (int \<times> bq35100_state)" where
  "bq35100_send_data defs address data len s =
     (if 2 < len \<or> length data < len then Inl OutOfBounds
      else (let buffer = address # take len data @ drop (Suc len) (uninit_bytes defs 3)
            in Inr (bq35100_write buffer 3 s)))"

definition bq35100_get_data ::
  "u8 \<Rightarrow> u8 list \<Rightarrow> nat \<Rightarrow> bq35100_state \<Rightarrow> int \<times> u8 list \<times> bq35100_state" where
  "bq35100_get_data address data len s = bq35100_read [address] 1 data len s"

definition bq35100_send_cntl ::
  "bq35100_defs \<Rightarrow> u16 \<Rightarrow> bq35100_state \<Rightarrow> fault + (int \<times> bq35100_state)" where
  "bq35100_send_cntl defs cntl_address s =
     bq35100_send_data defs (REG_CONTROL_STATUS defs) (sys_put_le16 cntl_address) 2 s"

text \<open>
  \<open>bq35100_get_status\<close>: \<open>status\<close> is what the out-parameter holds before the call, and the
  second component of the result what it holds afterwards. Both pointer arguments are
  valid at every call site.
\<close>

definition bq35100_get_status ::
  "bq35100_defs \<Rightarrow> u16 \<Rightarrow> bq35100_state \<Rightarrow> int \<times> u16 \<times> bq35100_state" where
  "bq35100_get_status defs status s =
     (let (ret, data, s1) = bq35100_get_data (REG_CONTROL_STATUS defs) (uninit_bytes defs 2) 2 s
      in if ret \<noteq> 0 then (ret, status, s1)
         else (0, push_bit 8 (ucast (data ! 1)) OR ucast (data ! 0), s1))"

section \<open>Status polling\<close>

function wait_for_status_loop ::
  "bq35100_defs \<Rightarrow> u16 \<Rightarrow> u16 \<Rightarrow> nat \<Rightarrow> int \<Rightarrow> u16 \<Rightarrow> bq35100_state \<Rightarrow> int \<times> bq35100_state" where
  "wait_for_status_loop defs expected mask_bits millis i answer s =
     (if i < MAX_RETRIES defs then
        (let (ret, answer1, s1) = bq35100_get_status defs answer s
         in if ret = 0 then (c_false, s1)
            else if answer1 AND mask_bits = expected then (c_true, s1)
            else wait_for_status_loop defs expected mask_bits millis (i + 1) answer1 (k_sleep millis s1))
      else (- EINVAL, s))"
  by pat_completeness auto
termination
  by (relation "measure (\<lambda>(defs, expected, mask_bits, millis, i, answer, s). nat (MAX_RETRIES defs - i))")
     auto

declare wait_for_status_loop.simps [simp del]

definition bq35100_wait_for_status ::
  "bq35100_defs \<Rightarrow> u16 \<Rightarrow> u16 \<Rightarrow> nat \<Rightarrow> bq35100_state \<Rightarrow> int \<times> bq35100_state" where
  "bq35100_wait_for_status defs expected mask_bits millis s =
     wait_for_status_loop defs expected mask_bits millis 0 (uninit_u16 defs) s"

section \<open>Security state machine\<close>

fun security_of_field :: "u8 \<Rightarrow> bq35100_security_t option" where
  "security_of_field extracted_security =
     (if extracted_security = 1 then Some SECURITY_FULL_ACCESS
      else if extracted_security = 2 then Some SECURITY_UNSEALED
      else if extracted_security = 3 then Some SECURITY_SEALED
      else None)"

text \<open>
  \<open>bq35100_get_security_mode\<close> is only ever called on \<open>&g_security_mode\<close>, which it
  updates on success. Its two failure paths return \<open>SECURITY_UNKNOWN\<close>, the integer 0.
\<close>

definition bq35100_get_security_mode ::
  "bq35100_defs \<Rightarrow> bq35100_state \<Rightarrow> int \<times> bq35100_state" where
  "bq35100_get_security_mode defs s =
     (let (result0, buffer0, s1) = bq35100_get_status defs (uninit_u16 defs) s;
          (result, buffer, s2) = bq35100_get_status defs buffer0 s1
      in if result \<noteq> 0 then (security_val SECURITY_UNKNOWN, s2)
         else (case security_of_field (ucast (drop_bit 13 (buffer AND 0x6000))) of
                 None \<Rightarrow> (security_val SECURITY_UNKNOWN, s2)
               | Some m \<Rightarrow> (0, s2\<lparr>g_security_mode := m\<rparr>)))"

text \<open>
  A plain \<open>char\<close> holding a byte, promoted to \<open>int\<close>, and the same value converted to
  \<open>uint32_t\<close>; a negative \<open>int\<close> converted to a 32-bit \<open>size_t\<close>.
\<close>

definition char_int :: "bq35100_defs \<Rightarrow> u8 \<Rightarrow> int" where
  "char_int defs b = (if char_signed defs then sint b else uint b)"

definition char_u32 :: "bq35100_defs \<Rightarrow> u8 \<Rightarrow> u32" where
  "char_u32 defs b = (if char_signed defs then scast b else ucast b)"

definition size_t_of_int :: "int \<Rightarrow> nat" where
  "size_t_of_int k = nat (k mod 2 ^ 32)"

subsection \<open>The transfer at the heart of an extended-memory read\<close>

text \<open>
  The part of \<open>bq35100_read_extended_data\<close> between the implicit unseal and the label
  \<open>END\<close>: the result code at \<open>END\<close>, the caller's \<open>data\<close> and the state. The return
  code of the 36-byte read is not looked at before the frame is checked.
\<close>

definition read_extended_transfer ::
  "bq35100_defs \<Rightarrow> u16 \<Rightarrow> u8 list \<Rightarrow> nat \<Rightarrow> bq35100_state
     \<Rightarrow> fault + (int \<times> u8 list \<times> bq35100_state)" where
  "read_extended_transfer defs address data len s =
     (let buffer = sys_put_le16 address @ drop 2 (uninit_bytes defs 36)
      in case bq35100_send_data defs (REG_MAC defs) buffer 2 s of
           Inl f \<Rightarrow> Inl f
         | Inr (result, s1) \<Rightarrow>
             if result \<noteq> 0 then Inr (- EINVAL, data, s1)
             else (let (result1, buffer1, s2) = bq35100_read [REG_MAC defs] 1 buffer 36 s1
                   in if uint (buffer1 ! 0) \<noteq> char_int defs (ucast address)
                         \<or> uint (buffer1 ! 1) \<noteq> char_int defs (ucast (drop_bit 8 address))
                      then Inr (- EINVAL, data, s2)
                      else (case bq35100_compute_checksum (Some buffer1)
                                   (size_t_of_int (uint (buffer1 ! 35) - 2)) of
                              Inl f \<Rightarrow> Inl f
                            | Inr checksum \<Rightarrow>
                                if buffer1 ! 34 \<noteq> checksum then Inr (- EINVAL, data, s2)
                                else (let length_read = size_t_of_int (uint (buffer1 ! 35) - 4);
                                          length_read1 = (if len < length_read then len else length_read)
                                      in if 34 < length_read1 \<or> length data < length_read1
                                         then Inl OutOfBounds
                                         else Inr (result1,
                                                   take length_read1 (drop 2 buffer1) @ drop length_read1 data,
                                                   s2)))))"


text \<open>No bus transfer touches the tracked security mode.\<close>

lemma i2c_write_dt_mode:
  "i2c_write_dt bytes s = (rc, s') \<Longrightarrow> g_security_mode s' = g_security_mode s"
  by (auto simp: i2c_write_dt_def split: i2c_reply.splits)

lemma i2c_read_dt_mode:
  "i2c_read_dt buf n s = (rc, buf', s') \<Longrightarrow> g_security_mode s' = g_security_mode s"
  by (auto simp: i2c_read_dt_def split: i2c_reply.splits)

lemma bq35100_write_mode:
  "bq35100_write data len s = (rc, s') \<Longrightarrow> g_security_mode s' = g_security_mode s"
  unfolding bq35100_write_def by (rule i2c_write_dt_mode)

lemma bq35100_read_mode:
  "bq35100_read wd wl rd rl s = (rc, buf', s') \<Longrightarrow> g_security_mode s' = g_security_mode s"
  unfolding bq35100_read_def
  by (auto split: prod.splits if_splits)
     (metis i2c_write_dt_mode i2c_read_dt_mode)+

lemma bq35100_send_data_mode:
  "bq35100_send_data defs a d l s = Inr (rc, s') \<Longrightarrow> g_security_mode s' = g_security_mode s"
  by (auto simp: bq35100_send_data_def Let_def split: if_splits dest: bq35100_write_mode)

lemma read_extended_transfer_mode:
  "read_extended_transfer defs address data len s = Inr (rc, data', s')
     \<Longrightarrow> g_security_mode s' = g_security_mode s"
  unfolding read_extended_transfer_def Let_def
  by (auto split: sum.splits prod.splits if_splits
           dest!: bq35100_send_data_mode bq35100_read_mode)

subsection \<open>Mode changes and extended-memory reads\<close>

text \<open>
  \<open>bq35100_set_security_mode\<close> and \<open>bq35100_read_extended_data\<close> call each other. The
  \<open>for\<close> loop of the former is \<open>set_security_loop\<close> (with the loop variables \<open>i\<close>,
  \<open>result\<close> and the local \<open>buffer\<close>), its \<open>switch\<close> is \<open>set_security_switch\<close>, which
  either returns from the function or breaks to the verification after the switch.
  \<open>mode_rank\<close> orders the calls for the termination proof.
\<close>

fun mode_rank :: "bq35100_security_t \<Rightarrow> nat" where
  "mode_rank SECURITY_UNKNOWN = 0"
| "mode_rank SECURITY_SEALED = 0"
| "mode_rank SECURITY_UNSEALED = 1"
| "mode_rank SECURITY_FULL_ACCESS = 3"

datatype switch_exit = Return int | Break int

function
  bq35100_set_security_mode ::
    "bq35100_defs \<Rightarrow> bq35100_security_t \<Rightarrow> bq35100_state \<Rightarrow> fault + (int \<times> bq35100_state)"
and set_security_loop ::
    "bq35100_defs \<Rightarrow> bq35100_security_t \<Rightarrow> int \<Rightarrow> int \<Rightarrow> u8 list \<Rightarrow> bq35100_state
       \<Rightarrow> fault + (int \<times> bq35100_state)"
and set_security_switch ::
    "bq35100_defs \<Rightarrow> bq35100_security_t \<Rightarrow> int \<Rightarrow> u8 list \<Rightarrow> bq35100_state
       \<Rightarrow> fault + (switch_exit \<times> u8 list \<times> bq35100_state)"
and bq35100_read_extended_data ::
    "bq35100_defs \<Rightarrow> u16 \<Rightarrow> u8 list option \<Rightarrow> nat \<Rightarrow> bq35100_state
       \<Rightarrow> fault + (int \<times> u8 list option \<times> bq35100_state)"
where
  "bq35100_set_security_mode defs new_security s =
     (if new_security = g_security_mode s then Inr (0, s)
      else if new_security = SECURITY_UNKNOWN then Inr (- EINVAL, s)
      else set_security_loop defs new_security 0 (- EINVAL) (uninit_bytes defs 4) s)"
| "set_security_loop defs new_security i result buffer s =
     (if i < MAX_RETRIES defs \<and> result \<noteq> 0 then
        (case set_security_switch defs new_security result (buffer[0 := REG_MAC defs]) s of
           Inl f \<Rightarrow> Inl f
         | Inr (Return r, buffer1, s1) \<Rightarrow> Inr (r, s1)
         | Inr (Break result1, buffer1, s1) \<Rightarrow>
             (let (result2, s2) = bq35100_get_security_mode defs s1
              in if result2 \<noteq> 0 then Inr (result2, s2)
                 else if g_security_mode s2 = new_security
                      then set_security_loop defs new_security (i + 1) result2 buffer1 s2
                      else Inr (- EIO, s2)))
      else Inr (result, s))"
| "set_security_switch defs SECURITY_SEALED result buffer s =
     (case bq35100_send_cntl defs (MAC_CMD_SEALED defs) s of
        Inl f \<Rightarrow> Inl f
      | Inr (result1, s1) \<Rightarrow>
          if result1 \<noteq> 0 then Inr (Return result1, buffer, s1)
          else Inr (Break result1, buffer, s1))"
| "set_security_switch defs SECURITY_FULL_ACCESS result buffer s =
     (case (if g_security_mode s = SECURITY_SEALED
            then bq35100_set_security_mode defs SECURITY_UNSEALED s
            else Inr (result, s)) of
        Inl f \<Rightarrow> Inl f
      | Inr (result1, s1) \<Rightarrow>
          if g_security_mode s = SECURITY_SEALED \<and> result1 \<noteq> 0
          then Inr (Return result1, buffer, s1)
          else (case bq35100_read_extended_data defs (FLASH_FULL_ACCESS_CODES defs)
                       (Some buffer) 4 s1 of
                  Inl f \<Rightarrow> Inl f
                | Inr (result2, data, s2) \<Rightarrow>
                    (let buffer1 = (case data of None \<Rightarrow> buffer | Some b \<Rightarrow> b)
                     in if result2 \<noteq> 0 then Inr (Return result2, buffer1, s2)
                        else (let full_access_codes =
                                    push_bit 24 (char_u32 defs (buffer1 ! 0))
                                    + push_bit 16 (char_u32 defs (buffer1 ! 1))
                                    + push_bit 8 (char_u32 defs (buffer1 ! 2))
                                    + char_u32 defs (buffer1 ! 3);
                                  buffer2 = buffer1
                                    [2 := ucast (drop_bit 24 full_access_codes AND 0xFF),
                                     1 := ucast (drop_bit 16 full_access_codes AND 0xFF)];
                                  (result3, s3) = bq35100_write buffer2 3 s2
                              in if result3 \<noteq> 0 then Inr (Return result3, buffer2, s3)
                                 else (let buffer3 = buffer2
                                             [2 := ucast (drop_bit 8 full_access_codes AND 0xFF),
                                              1 := ucast (full_access_codes AND 0xFF)];
                                           (result4, s4) = bq35100_write buffer3 3 s3
                                       in if result4 \<noteq> 0 then Inr (Return result4, buffer3, s4)
                                          else Inr (Break result4, buffer3, s4))))))"
| "set_security_switch defs SECURITY_UNSEALED result buffer s =
     (case (if g_security_mode s = SECURITY_FULL_ACCESS
            then bq35100_set_security_mode defs SECURITY_SEALED s
            else Inr (result, s)) of
        Inl f \<Rightarrow> Inl f
      | Inr (result1, s1) \<Rightarrow>
          if g_security_mode s = SECURITY_FULL_ACCESS \<and> result1 \<noteq> 0
          then Inr (Return result1, buffer, s1)
          else (let buffer1 = buffer
                      [0 := REG_CONTROL_STATUS defs,
                       2 := ucast (drop_bit 24 (DEFAULT_SEAL_CODES defs) AND 0xFF),
                       1 := ucast (drop_bit 16 (DEFAULT_SEAL_CODES defs) AND 0xFF)];
                    (result2, s2) = bq35100_write buffer1 3 s1
                in if result2 \<noteq> 0 then Inr (Return result2, buffer1, s2)
                   else (let s3 = k_sleep BQ35100_FLASH_WRITE_DELAY s2;
                             buffer2 = buffer1
                               [2 := ucast (drop_bit 8 (DEFAULT_SEAL_CODES defs) AND 0xFF),
                                1 := ucast (DEFAULT_SEAL_CODES defs AND 0xFF)];
                             (result3, s4) = bq35100_write buffer2 3 s3
                         in if result3 \<noteq> 0 then Inr (Return result3, buffer2, s4)
                            else Inr (Break result3, buffer2, s4))))"
| "set_security_switch defs SECURITY_UNKNOWN result buffer s = Inr (Break result, buffer, s)"
| "bq35100_read_extended_data defs address data len s =
     (if g_security_mode s = SECURITY_UNKNOWN then Inr (- EINVAL, data, s)
      else if address < 0x4000 \<or> 0x43FF < address \<or> data = None then Inr (- EINVAL, data, s)
      else (case (if g_security_mode s = SECURITY_SEALED
                  then bq35100_set_security_mode defs SECURITY_UNSEALED s
                  else Inr (0, s)) of
              Inl f \<Rightarrow> Inl f
            | Inr (result, s1) \<Rightarrow>
                if g_security_mode s = SECURITY_SEALED \<and> result \<noteq> 0
                then Inr (- EINVAL, data, s1)
                else (case read_extended_transfer defs address (the data) len s1 of
                        Inl f \<Rightarrow> Inl f
                      | Inr (result1, data1, s2) \<Rightarrow>
                          if g_security_mode s \<noteq> g_security_mode s2
                          then (case bq35100_set_security_mode defs (g_security_mode s) s2 of
                                  Inl f \<Rightarrow> Inl f
                                | Inr (result2, s3) \<Rightarrow> Inr (result2, Some data1, s3))
                          else Inr (result1, Some data1, s2))))"
  by pat_completeness auto

termination
proof (relation "inv_image (less_than <*lex*> less_than <*lex*> less_than)
    (\<lambda>c. case c of
        Inl (Inl (defs, new_security, s)) \<Rightarrow> (mode_rank new_security, 3::nat, 0::nat)
      | Inl (Inr (defs, new_security, i, result, buffer, s)) \<Rightarrow>
          (mode_rank new_security, 2, nat (MAX_RETRIES defs - i))
      | Inr (Inl (defs, new_security, result, buffer, s)) \<Rightarrow> (mode_rank new_security, 1, 0)
      | Inr (Inr (defs, address, data, len, s)) \<Rightarrow> (2, 0, 0))", goal_cases)
  case 1
  show ?case by (intro wf_inv_image wf_lex_prod wf_less_than)
next
  case 2
  show ?case by simp
next
  case 3
  show ?case by simp
next
  case 4
  then show ?case by simp
next
  case 5
  show ?case by simp
next
  case 6
  show ?case by simp
next
  case 7
  show ?case by simp
next
  case 8
  show ?case by simp
next
  case (9 defs address data len s b x y ba xa ya xb yb)
  have "g_security_mode s = SECURITY_SEALED"
  proof (rule ccontr)
    assume ns: "g_security_mode s \<noteq> SECURITY_SEALED"
    with 9(3,4) have "y = s" by auto
    moreover from 9(6,7,8) have "read_extended_transfer defs address (the data) len y = Inr (xa, xb, yb)"
      by simp
    ultimately have "g_security_mode yb = g_security_mode s"
      by (auto dest: read_extended_transfer_mode)
    with 9(9) show False by simp
  qed
  then show ?case by simp
qed

declare bq35100_set_security_mode.simps [simp del]
declare set_security_loop.simps [simp del]
declare set_security_switch.simps [simp del]
declare bq35100_read_extended_data.simps [simp del]

subsection \<open>Extended-memory write\<close>

text \<open>
  The part of \<open>bq35100_write_extended_data\<close> between the implicit unseal and the label
  \<open>END\<close>, with the result code the function holds at \<open>END\<close>. When the status read back
  has bit 15 set the source logs the failure and jumps to \<open>END\<close>; \<open>result\<close> is then still
  the 0 of the status read.
\<close>

definition write_extended_transfer ::
  "bq35100_defs \<Rightarrow> u16 \<Rightarrow> u8 list \<Rightarrow> nat \<Rightarrow> bq35100_state
     \<Rightarrow> fault + (int \<times> bq35100_state)" where
  "write_extended_transfer defs address data len s =
     (if length data < len then Inl OutOfBounds
      else (let buffer = REG_MAC defs # sys_put_le16 address @ take len data
                           @ drop (3 + len) (uninit_bytes defs 35);
                (result, s1) = bq35100_write buffer (3 + len) s
            in if result \<noteq> 0 then Inr (result, s1)
               else (let s2 = k_sleep BQ35100_FLASH_WRITE_DELAY s1
                     in case bq35100_compute_checksum (Some (drop 1 buffer)) (len + 2) of
                          Inl f \<Rightarrow> Inl f
                        | Inr checksum \<Rightarrow>
                            (let buffer1 = REG_MAC_DATA_SUM defs # checksum # of_nat (len + 4)
                                             # drop 3 buffer;
                                 (result1, s3) = bq35100_write buffer1 3 s2
                             in if result1 \<noteq> 0 then Inr (result1, s3)
                                else (let s4 = k_sleep BQ35100_FLASH_WRITE_DELAY s3;
                                          (result2, answer, s5) =
                                             bq35100_get_status defs (uninit_u16 defs) s4
                                      in if result2 \<noteq> 0 then Inr (result2, s5)
                                         else if 0x8000 AND answer \<noteq> 0 then Inr (result2, s5)
                                         else Inr (result2, s5))))))"

text \<open>
  \<open>bq35100_write_extended_data\<close>. A null \<open>data\<close> is \<open>None\<close>. The two argument checks
  return \<open>false\<close>; a failed implicit unseal returns \<open>-EINVAL\<close>; after \<open>END\<close> the mode the
  call started in is restored, and the result of that restore replaces \<open>result\<close>.
\<close>

definition bq35100_write_extended_data ::
  "bq35100_defs \<Rightarrow> u16 \<Rightarrow> u8 list option \<Rightarrow> nat \<Rightarrow> bq35100_state
     \<Rightarrow> fault + (int \<times> bq35100_state)" where
  "bq35100_write_extended_data defs address data len s =
     (let prev_security_mode = g_security_mode s
      in if g_security_mode s = SECURITY_UNKNOWN then Inr (c_false, s)
         else if address < 0x4000 \<or> 0x43FF < address \<or> len < 1 \<or> 32 < len \<or> data = None
              then Inr (c_false, s)
         else (case (if g_security_mode s = SECURITY_SEALED
                     then bq35100_set_security_mode defs SECURITY_UNSEALED s
                     else Inr (0, s)) of
                 Inl f \<Rightarrow> Inl f
               | Inr (result, s1) \<Rightarrow>
                   if g_security_mode s = SECURITY_SEALED \<and> result \<noteq> 0
                   then Inr (- EINVAL, s1)
                   else (case write_extended_transfer defs address (the data) len s1 of
                           Inl f \<Rightarrow> Inl f
                         | Inr (result1, s2) \<Rightarrow>
                             if prev_security_mode \<noteq> g_security_mode s2
                             then bq35100_set_security_mode defs prev_security_mode s2
                             else Inr (result1, s2))))"

section \<open>The checksum of a frame\<close>





lemma unat_u8_less: "unat (t::u8) < 256"
  using unsigned_less [of t, where 'a = nat] by simp





section \<open>Derived capacity values\<close>

text \<open>
  The specification's own functions, on unbounded integers: \<open>clamp\<close>, the remaining
  capacity and the state of charge. The code is compared with them below.
\<close>

definition spec_clamp :: "int \<Rightarrow> int \<Rightarrow> int \<Rightarrow> int" where
  "spec_clamp x lo hi = (if x < lo then lo else if hi < x then hi else x)"

definition spec_remaining_capacity :: "int \<Rightarrow> int \<Rightarrow> int" where
  "spec_remaining_capacity design accumulated =
     spec_clamp (design * 1000 + accumulated) 0 (design * 1000)"

definition spec_state_of_charge :: "int \<Rightarrow> int \<Rightarrow> int" where
  "spec_state_of_charge design accumulated =
     (if 0 < design
      then spec_clamp (spec_remaining_capacity design accumulated * 100 div (design * 1000)) 0 100
      else 0)"

text \<open>Casts and 64-bit arithmetic that do not wrap.\<close>

lemma stb_nonneg: "0 \<le> k \<Longrightarrow> k < 2 ^ n \<Longrightarrow> signed_take_bit n (k::int) = k"
  by (rule signed_take_bit_int_eq_self) (auto intro: order_trans [where y = 0])

lemma sint32_bounds: "- 2147483648 \<le> sint (d::i32) \<and> sint d < 2147483648"
  using sint_ge [of d] sint_lt [of d] by simp

lemma sint_scast_32_64: "sint (scast (d::i32) :: i64) = sint d"
  by (simp add: sint_up_scast is_up)

lemma is_down_64_32: "is_down (ucast :: i64 \<Rightarrow> i32)"
  by (simp add: is_down)

lemma sint_ucast_64_32:
  assumes "- 2147483648 \<le> sint (w::i64)" "sint w < 2147483648"
  shows "sint (ucast w :: i32) = sint w"
proof -
  have "(ucast w :: i32) = ucast (word_of_int (sint w) :: i64)" by simp
  also have "\<dots> = word_of_int (sint w)"
    by (rule ucast_down_wi [OF is_down_64_32])
  finally have e: "(ucast w :: i32) = word_of_int (sint w)" .
  have "signed_take_bit 31 (sint w) = sint w"
    by (rule signed_take_bit_int_eq_self) (use assms in simp_all)
  moreover have "sint (word_of_int (sint w) :: i32) = signed_take_bit 31 (sint w)"
    by (simp only: sint_sbintrunc') simp
  ultimately show ?thesis by (simp only: e)
qed

lemma uint16_less: "uint (d::u16) < 65536"
  using unsigned_less [of d, where 'a = int] by simp

lemma sint_ucast_16_32: "sint (ucast (d::u16) :: i32) = uint d"
proof -
  have "signed_take_bit 31 (uint d) = uint d"
    by (rule stb_nonneg) (use uint16_less [of d] in simp_all)
  moreover have "take_bit 32 (uint d) = uint d"
    by (rule take_bit_int_eq_self) (use uint16_less [of d] in simp_all)
  ultimately show ?thesis
   by (simp add: sint_uint unsigned_ucast_eq)
qed

lemma sint_times_1000: "sint ((ucast (raw::u16) :: u32) * 1000) = uint raw * 1000"
proof -
  have "signed_take_bit 31 (uint raw * 1000) = uint raw * 1000"
    by (rule stb_nonneg) (use uint16_less [of raw] in simp_all)
  then show ?thesis
    by (simp add: sint_word_mult sint_ucast_16_32)
qed

lemma sint_design_capacity_uah: "sint (design_capacity_uah d) = sint d * 1000"
proof -
  have "- (2 ^ 63) \<le> sint d * 1000 \<and> sint d * 1000 < 2 ^ 63"
    using sint32_bounds [of d] by simp
  then show ?thesis
    unfolding design_capacity_uah_def
    by (simp add: sint_word_mult sint_scast_32_64 signed_take_bit_int_eq_self)
qed

lemma sint_remaining_capacity_sum:
  "sint (remaining_capacity_sum d a) = sint d * 1000 + sint a"
proof -
  have "- (2 ^ 63) \<le> sint d * 1000 + sint a \<and> sint d * 1000 + sint a < 2 ^ 63"
    using sint32_bounds [of d] sint32_bounds [of a] by simp
  then show ?thesis
    unfolding remaining_capacity_sum_def
    by (simp add: sint_word_add sint_design_capacity_uah sint_scast_32_64
                  signed_take_bit_int_eq_self)
qed

lemma sint_remaining_capacity_clamped:
  "sint (remaining_capacity_clamped d a) = spec_clamp (sint d * 1000 + sint a) 0 (sint d * 1000)"
  unfolding remaining_capacity_clamped_def spec_clamp_def Let_def
  by (simp add: word_sless_alt sint_remaining_capacity_sum sint_design_capacity_uah)

lemma spec_clamp_range: "lo \<le> hi \<Longrightarrow> lo \<le> spec_clamp x lo hi \<and> spec_clamp x lo hi \<le> hi"
  by (simp add: spec_clamp_def)

lemma sint_calculate_remaining_capacity:
  assumes "0 \<le> sint d" "sint d \<le> 2147483"
  shows "sint (calculate_remaining_capacity d a) = spec_remaining_capacity (sint d) (sint a)"
proof -
  have r: "0 \<le> sint (remaining_capacity_clamped d a)
           \<and> sint (remaining_capacity_clamped d a) \<le> sint d * 1000"
    using assms spec_clamp_range [of 0 "sint d * 1000" "sint d * 1000 + sint a"]
    by (simp add: sint_remaining_capacity_clamped)
  then have "sint (ucast (remaining_capacity_clamped d a) :: i32)
               = sint (remaining_capacity_clamped d a)"
    using assms by (intro sint_ucast_64_32) simp_all
  then show ?thesis
    by (simp add: calculate_remaining_capacity_def sint_remaining_capacity_clamped
                  spec_remaining_capacity_def)
qed

lemma le16_roundtrip:
  "push_bit 8 (ucast (ucast (drop_bit 8 w) :: u8)) OR ucast (ucast w :: u8) = (w :: u16)"
  by (rule bit_word_eqI) (auto simp add: bit_simps)

lemma le32_roundtrip:
  "push_bit 24 (ucast (ucast (drop_bit 24 w) :: u8))
     OR push_bit 16 (ucast (ucast (drop_bit 16 w) :: u8))
     OR push_bit 8 (ucast (ucast (drop_bit 8 w) :: u8))
     OR ucast (ucast w :: u8) = (w :: u32)"
proof (rule bit_word_eqI)
  fix n :: nat
  assume "n < LENGTH(32)"
  then have n: "n < 32" by simp
  consider "n < 8" | "8 \<le> n" "n < 16" | "16 \<le> n" "n < 24" | "24 \<le> n" by linarith
  then show "bit (push_bit 24 (ucast (ucast (drop_bit 24 w) :: u8))
        OR push_bit 16 (ucast (ucast (drop_bit 16 w) :: u8))
        OR push_bit 8 (ucast (ucast (drop_bit 8 w) :: u8))
        OR ucast (ucast w :: u8) :: u32) n = bit w n"
    using n by cases (auto simp add: bit_simps)
qed

lemma sys_get_le16_put: "sys_get_le16 (sys_put_le16 w @ rest) 0 = Inr w"
  by (simp add: sys_get_le16_def sys_put_le16_def le16_roundtrip)

lemma sys_get_le32_bytes: "sys_get_le32 (le32_bytes a @ rest) 0 = Inr a"
  by (simp add: sys_get_le32_def le32_bytes_def le32_roundtrip)

lemma sys_get_le16_after_le32: "sys_get_le16 (le32_bytes a @ sys_put_le16 w @ rest) 4 = Inr w"
  by (simp add: sys_get_le16_def sys_put_le16_def le32_bytes_def le16_roundtrip)

lemma sys_get_le16_after_le32': "sys_get_le16 (le32_bytes a @ sys_put_le16 w) 4 = Inr w"
  using sys_get_le16_after_le32 [of a w "[]"] by simp

lemma process_capacity_remaining:
  "process_capacity FUEL_GAUGE_REMAINING_CAPACITY (le32_bytes a @ sys_put_le16 d)
     = Inr (0, Val_remaining_capacity (calculate_remaining_capacity (ucast d) a))"
  by (simp add: process_capacity_def sys_get_le32_bytes sys_get_le16_after_le32')

text \<open>
  C5. For every design capacity the 16-bit register can hold (mAh) and every signed
  32-bit accumulated capacity (\<open>\<mu>Ah\<close>), the remaining capacity the driver derives is
  \<open>clamp(design*1000 + accumulated, 0, design*1000)\<close>, and it is what the property engine
  reports for the register bytes; design 2000 with accumulated -500000 gives 1500000, with
  -5000000 gives 0, with +100000 gives 2000000.
\<close>

theorem remaining_capacity_clamp:
  "sint (calculate_remaining_capacity (ucast (design :: u16)) accumulated)
     = spec_clamp (uint design * 1000 + sint accumulated) 0 (uint design * 1000)
   \<and> bq35100_process_prop FUEL_GAUGE_REMAINING_CAPACITY
        (Some (le32_bytes accumulated @ sys_put_le16 design)) (Some v)
       = Inr (0, Some (Val_remaining_capacity
                         (calculate_remaining_capacity (ucast design) accumulated)))
   \<and> sint (calculate_remaining_capacity 2000 (- 500000)) = 1500000
   \<and> sint (calculate_remaining_capacity 2000 (- 5000000)) = 0
   \<and> sint (calculate_remaining_capacity 2000 100000) = 2000000"
proof -
  have d: "0 \<le> sint (ucast design :: i32) \<and> sint (ucast design :: i32) \<le> 2147483"
    using uint16_less [of design] by (simp add: sint_ucast_16_32)
  have 1: "sint (calculate_remaining_capacity (ucast design) accumulated)
     = spec_clamp (uint design * 1000 + sint accumulated) 0 (uint design * 1000)"
    using d sint_calculate_remaining_capacity [of "ucast design" accumulated]
    by (simp add: spec_remaining_capacity_def sint_ucast_16_32)
  have 2: "bq35100_process_prop FUEL_GAUGE_REMAINING_CAPACITY
        (Some (le32_bytes accumulated @ sys_put_le16 design)) (Some v)
       = Inr (0, Some (Val_remaining_capacity
                         (calculate_remaining_capacity (ucast design) accumulated)))"
    by (simp add: bq35100_process_prop_def process_capacity_remaining)
  have 3: "sint (calculate_remaining_capacity 2000 (- 500000)) = 1500000"
    using sint_calculate_remaining_capacity [of 2000 "- 500000"]
    by (simp add: spec_remaining_capacity_def spec_clamp_def)
  have 4: "sint (calculate_remaining_capacity 2000 (- 5000000)) = 0"
    using sint_calculate_remaining_capacity [of 2000 "- 5000000"]
    by (simp add: spec_remaining_capacity_def spec_clamp_def)
  have 5: "sint (calculate_remaining_capacity 2000 100000) = 2000000"
    using sint_calculate_remaining_capacity [of 2000 100000]
    by (simp add: spec_remaining_capacity_def spec_clamp_def)
  from 1 2 3 4 5 show ?thesis by blast
qed

text \<open>
  C10. For every design capacity in [0, 65535] and every 32-bit signed accumulated
  capacity, the 64-bit product and sum of \<open>calculate_remaining_capacity\<close> are the exact
  integer values (nothing wraps), the clamped value lies in [0, design*1000], and the
  final cast to 32 bits keeps it, so the result fits a signed 32-bit integer.
\<close>

theorem remaining_capacity_no_overflow:
  assumes "0 \<le> sint design" "sint design \<le> 65535"
  shows "sint (design_capacity_uah design) = sint design * 1000
       \<and> sint (remaining_capacity_sum design accumulated) = sint design * 1000 + sint accumulated
       \<and> 0 \<le> sint (remaining_capacity_clamped design accumulated)
       \<and> sint (remaining_capacity_clamped design accumulated) \<le> sint design * 1000
       \<and> sint (calculate_remaining_capacity design accumulated)
           = sint (remaining_capacity_clamped design accumulated)
       \<and> 0 \<le> sint (calculate_remaining_capacity design accumulated)
       \<and> sint (calculate_remaining_capacity design accumulated) \<le> sint design * 1000
       \<and> sint design * 1000 < 2 ^ 31"
proof -
  have r: "0 \<le> sint (remaining_capacity_clamped design accumulated)
           \<and> sint (remaining_capacity_clamped design accumulated) \<le> sint design * 1000"
    using assms spec_clamp_range [of 0 "sint design * 1000" "sint design * 1000 + sint accumulated"]
    by (simp add: sint_remaining_capacity_clamped)
  have e: "sint (calculate_remaining_capacity design accumulated)
           = sint (remaining_capacity_clamped design accumulated)"
    unfolding calculate_remaining_capacity_def
    using assms r by (intro sint_ucast_64_32) simp_all
  have "sint design * 1000 < 2 ^ 31"
    using assms by simp
  with r e show ?thesis
    by (simp add: sint_design_capacity_uah sint_remaining_capacity_sum)
qed

theorem remaining_capacity_no_overflow_witness:
  "0 \<le> sint (65535 :: i32) \<and> sint (65535 :: i32) \<le> 65535
   \<and> sint (remaining_capacity_sum 65535 0x7FFFFFFF) = 2213018647
   \<and> sint (calculate_remaining_capacity 65535 0x7FFFFFFF) = 65535000"
proof -
  have h: "0 \<le> sint (65535 :: i32)" "sint (65535 :: i32) \<le> 65535" by simp_all
  have c: "sint (remaining_capacity_clamped 65535 0x7FFFFFFF) = 65535000"
    by (simp add: sint_remaining_capacity_clamped spec_clamp_def)
  show ?thesis
    using h c remaining_capacity_no_overflow [OF h, of "0x7FFFFFFF"] by simp
qed

section \<open>State of charge\<close>

lemma sdiv_nonneg: "0 \<le> k \<Longrightarrow> 0 < l \<Longrightarrow> (k::int) sdiv l = k div l"
  by (simp add: signed_divide_int_def sgn_if)

lemma spec_remaining_range:
  "0 \<le> d \<Longrightarrow> 0 \<le> spec_remaining_capacity d a \<and> spec_remaining_capacity d a \<le> d * 1000"
  unfolding spec_remaining_capacity_def by (rule spec_clamp_range) simp

lemma soc_quotient_range:
  assumes "0 < d" "0 \<le> r" "r \<le> d * 1000"
  shows "0 \<le> r * 100 div (d * 1000) \<and> r * 100 div (d * 1000) \<le> (100::int)"
proof -
  have "r * 100 \<le> 100 * (d * 1000)" using assms by simp
  then have "r * 100 div (d * 1000) \<le> 100 * (d * 1000) div (d * 1000)"
    by (rule zdiv_mono1) (use assms in simp)
  moreover have "100 * (d * 1000) div (d * 1000) = 100" using assms by simp
  moreover have "0 \<le> r * 100 div (d * 1000)" using assms by (simp add: pos_imp_zdiv_nonneg_iff)
  ultimately show ?thesis by simp
qed

lemma clamp_percent:
  assumes "0 \<le> q" "q \<le> 100"
  shows "sint (ucast (CLAMP (word_of_int q :: i64) 0 100) :: i32) = q"
proof -
  have "signed_take_bit 63 q = q" by (rule stb_nonneg) (use assms in simp_all)
  then have sq: "sint (word_of_int q :: i64) = q" by (simp add: sint_sbintrunc')
  have cl: "sint (CLAMP (word_of_int q) 0 100 :: i64) = q"
    using assms by (simp add: CLAMP_def word_sle_eq word_sless_alt sq)
  show ?thesis
    using assms by (subst sint_ucast_64_32) (simp_all add: cl)
qed

lemma soc_word:
  fixes d :: u16 and a :: i32
  assumes pos: "0 < uint d"
  defines "r \<equiv> calculate_remaining_capacity (ucast d) a"
  shows "\<exists>q. c_div64 (scast r * 100) (scast (ucast d :: i32) * 1000) = Inr q
           \<and> sint (ucast (CLAMP q 0 100) :: i32) = spec_state_of_charge (uint d) (sint a)"
proof -
  let ?R = "spec_remaining_capacity (uint d) (sint a)"
  let ?D = "uint d * 1000"
  have dl: "uint d < 65536" by (rule uint16_less)
  have sr: "sint r = ?R"
    unfolding r_def
    using sint_calculate_remaining_capacity [of "ucast d" a] dl
    by (simp add: sint_ucast_16_32)
  have rr: "0 \<le> ?R \<and> ?R \<le> ?D"
    using spec_remaining_range [of "uint d" "sint a"] by simp
  have num: "sint (scast r * 100 :: i64) = ?R * 100"
  proof -
    have "signed_take_bit 63 (?R * 100) = ?R * 100"
      by (rule stb_nonneg) (use rr dl in simp_all)
    then show ?thesis by (simp add: sint_word_mult sint_scast_32_64 sr)
  qed
  have den: "sint (scast (ucast d :: i32) * 1000 :: i64) = ?D"
    using sint_design_capacity_uah [of "ucast d"]
    by (simp add: design_capacity_uah_def sint_ucast_16_32)
  have nz: "(scast (ucast d :: i32) * 1000 :: i64) \<noteq> 0"
  proof
    assume "(scast (ucast d :: i32) * 1000 :: i64) = 0"
    then have "sint (scast (ucast d :: i32) * 1000 :: i64) = 0" by simp
    with den pos show False by simp
  qed
  define Q where "Q = ?R * 100 div ?D"
  have qr: "0 \<le> Q \<and> Q \<le> 100"
    unfolding Q_def using soc_quotient_range [of "uint d" ?R] pos rr by simp
  have "sint (scast r * 100 :: i64) sdiv sint (scast (ucast d :: i32) * 1000 :: i64) = Q"
    unfolding Q_def num den using pos rr by (intro sdiv_nonneg) simp_all
  moreover have "sint (scast (ucast d :: i32) * 1000 :: i64) \<noteq> - 1"
    using den pos by simp
  ultimately have dv:
    "c_div64 (scast r * 100) (scast (ucast d :: i32) * 1000) = Inr (word_of_int Q)"
    using nz by (simp add: c_div64_def)
  have "sint (ucast (CLAMP (word_of_int Q) 0 100 :: i64) :: i32) = Q"
    using qr by (rule_tac clamp_percent) simp_all
  moreover have "spec_state_of_charge (uint d) (sint a) = Q"
    using pos qr unfolding Q_def by (simp add: spec_state_of_charge_def spec_clamp_def)
  ultimately show ?thesis using dv by simp
qed

lemma process_capacity_soc:
  "\<exists>soc. process_capacity FUEL_GAUGE_ABSOLUTE_STATE_OF_CHARGE (le32_bytes a @ sys_put_le16 d)
            = Inr (0, Val_absolute_state_of_charge soc)
         \<and> sint soc = spec_state_of_charge (uint d) (sint a)"
proof (cases "0 < uint d")
  case True
  then have "\<not> (ucast d :: i32) \<le>s 0" by (simp add: word_sle_eq sint_ucast_16_32)
  moreover obtain q where "c_div64 (scast (calculate_remaining_capacity (ucast d) a) * 100)
            (scast (ucast d :: i32) * 1000) = Inr q"
     "sint (ucast (CLAMP q 0 100) :: i32) = spec_state_of_charge (uint d) (sint a)"
    using soc_word [OF True, of a] by blast
  ultimately show ?thesis
    by (simp add: process_capacity_def sys_get_le32_bytes sys_get_le16_after_le32' Let_def)
next
  case False
  then have z: "uint d = 0" by (simp add: not_less)
  then have "(ucast d :: i32) \<le>s 0" by (simp add: word_sle_eq sint_ucast_16_32)
  then show ?thesis using z
    by (simp add: process_capacity_def sys_get_le32_bytes sys_get_le16_after_le32' Let_def
                  spec_state_of_charge_def)
qed

lemma process_capacity_soc_example:
  "process_capacity FUEL_GAUGE_ABSOLUTE_STATE_OF_CHARGE (le32_bytes (- 1000000) @ sys_put_le16 2000)
    = Inr (0, Val_absolute_state_of_charge 50)"
  by code_simp

lemma process_capacity_soc_zero:
  "process_capacity FUEL_GAUGE_ABSOLUTE_STATE_OF_CHARGE (le32_bytes a @ sys_put_le16 0)
    = Inr (0, Val_absolute_state_of_charge 0)"
  by (simp add: process_capacity_def sys_get_le32_bytes sys_get_le16_after_le32' Let_def)

text \<open>
  C6. For every design capacity register value and every accumulated capacity, the state
  of charge the property engine reports is \<open>clamp(remaining*100 / (design*1000), 0, 100)\<close>
  when the design capacity is positive and 0 otherwise; the division never has a zero
  divisor (the result is never a fault). Design 2000 with accumulated -1000000 gives 50,
  and design 0 gives 0 whatever the accumulated capacity.
\<close>

theorem state_of_charge_clamp:
  "(\<exists>soc. bq35100_process_prop FUEL_GAUGE_ABSOLUTE_STATE_OF_CHARGE
             (Some (le32_bytes accumulated @ sys_put_le16 design)) (Some v)
           = Inr (0, Some (Val_absolute_state_of_charge soc))
         \<and> sint soc = spec_state_of_charge (uint design) (sint accumulated))
   \<and> bq35100_process_prop FUEL_GAUGE_ABSOLUTE_STATE_OF_CHARGE
        (Some (le32_bytes (- 1000000) @ sys_put_le16 2000)) (Some v)
       = Inr (0, Some (Val_absolute_state_of_charge 50))
   \<and> bq35100_process_prop FUEL_GAUGE_ABSOLUTE_STATE_OF_CHARGE
        (Some (le32_bytes accumulated @ sys_put_le16 0)) (Some v)
       = Inr (0, Some (Val_absolute_state_of_charge 0))
   \<and> spec_state_of_charge 2000 (- 1000000) = 50"
proof -
  obtain soc where "process_capacity FUEL_GAUGE_ABSOLUTE_STATE_OF_CHARGE
            (le32_bytes accumulated @ sys_put_le16 design) = Inr (0, Val_absolute_state_of_charge soc)"
      "sint soc = spec_state_of_charge (uint design) (sint accumulated)"
    using process_capacity_soc [of accumulated design] by blast
  then have "\<exists>soc. bq35100_process_prop FUEL_GAUGE_ABSOLUTE_STATE_OF_CHARGE
             (Some (le32_bytes accumulated @ sys_put_le16 design)) (Some v)
           = Inr (0, Some (Val_absolute_state_of_charge soc))
         \<and> sint soc = spec_state_of_charge (uint design) (sint accumulated)"
    by (simp add: bq35100_process_prop_def)
  moreover have "bq35100_process_prop FUEL_GAUGE_ABSOLUTE_STATE_OF_CHARGE
        (Some (le32_bytes (- 1000000) @ sys_put_le16 2000)) (Some v)
       = Inr (0, Some (Val_absolute_state_of_charge 50))"
    by (simp add: bq35100_process_prop_def process_capacity_soc_example)
  moreover have "bq35100_process_prop FUEL_GAUGE_ABSOLUTE_STATE_OF_CHARGE
        (Some (le32_bytes accumulated @ sys_put_le16 0)) (Some v)
       = Inr (0, Some (Val_absolute_state_of_charge 0))"
    by (simp add: bq35100_process_prop_def process_capacity_soc_zero)
  moreover have "spec_state_of_charge 2000 (- 1000000) = 50"
    by (simp add: spec_state_of_charge_def spec_remaining_capacity_def spec_clamp_def)
  ultimately show ?thesis by blast
qed

section \<open>Voltage and current\<close>

lemma process_prop_voltage:
  "bq35100_process_prop FUEL_GAUGE_VOLTAGE (Some (sys_put_le16 raw @ rest)) (Some v)
     = Inr (0, Some (Val_voltage (ucast raw * 1000)))"
  by (simp add: bq35100_process_prop_def sys_get_le16_put)

lemma process_prop_current:
  "bq35100_process_prop FUEL_GAUGE_CURRENT (Some (sys_put_le16 raw @ rest)) (Some v)
     = Inr (0, Some (Val_current (ucast raw * 1000)))"
  by (simp add: bq35100_process_prop_def sys_get_le16_put)

text \<open>
  The Voltage conversion: for every 16-bit raw register value the millivolts are
  multiplied by 1000 without wrapping, and raw 3700 converts to 3,700,000.
\<close>

lemma voltage_micro_units:
  "bq35100_process_prop FUEL_GAUGE_VOLTAGE (Some (sys_put_le16 raw @ rest)) (Some v)
     = Inr (0, Some (Val_voltage (ucast raw * 1000)))
   \<and> sint (ucast raw * 1000 :: i32) = uint raw * 1000
   \<and> bq35100_process_prop FUEL_GAUGE_VOLTAGE (Some (sys_put_le16 3700 @ rest)) (Some v)
        = Inr (0, Some (Val_voltage 3700000))"
  by (simp add: process_prop_voltage sint_times_1000)

text \<open>
  C4 on the code. The Current register is loaded as the Voltage register is, zero-extended
  into a \<open>uint32_t\<close>: raw 65436, which is -100 mA as a two's-complement 16-bit value,
  converts to 65,436,000 and not to -100,000, and raw 65535, which is -1 mA, converts to
  65,535,000 and not to -1,000.
\<close>

theorem current_conversion_drops_sign:
  "bq35100_process_prop FUEL_GAUGE_CURRENT (Some (sys_put_le16 65436)) (Some Val_unset)
     = Inr (0, Some (Val_current 65436000))
   \<and> sint (65436000 :: i32) = 65436000
   \<and> sint (65436 :: u16) * 1000 = - 100000
   \<and> sint (65436000 :: i32) \<noteq> sint (65436 :: u16) * 1000
   \<and> bq35100_process_prop FUEL_GAUGE_CURRENT (Some (sys_put_le16 65535)) (Some Val_unset)
     = Inr (0, Some (Val_current 65535000))
   \<and> sint (65535000 :: i32) \<noteq> sint (65535 :: u16) * 1000"
  using process_prop_current [of 65436 "[]" Val_unset]
        process_prop_current [of 65535 "[]" Val_unset]
  by simp

section \<open>Worked bus scripts\<close>

text \<open>
  One choice of the constants, for the concrete runs below; the general theorems hold for
  every choice. A run starts in a given tracked mode with a script of bus replies and an
  empty log.
\<close>

definition example_defs :: bq35100_defs where
  "example_defs = \<lparr>REG_CONTROL_STATUS = 0x00, REG_MAC = 0x3E, REG_MAC_DATA_SUM = 0x60,
     MAC_CMD_SEALED = 0x0020, FLASH_FULL_ACCESS_CODES = 0x41D0,
     DEFAULT_SEAL_CODES = 0x04143672, MAX_RETRIES = 3, char_signed = False,
     junk = (\<lambda>n. 0)\<rparr>"

definition bus_script :: "bq35100_security_t \<Rightarrow> i2c_reply list \<Rightarrow> bq35100_state" where
  "bus_script m rs = \<lparr>g_security_mode = m, i2c_replies = rs, i2c_log = []\<rparr>"

lemmas bus_simps = i2c_write_dt_def i2c_read_dt_def next_reply_def k_sleep_def bq35100_write_def
  bq35100_read_def bq35100_send_data_def bq35100_get_data_def bq35100_send_cntl_def
  bq35100_get_status_def uninit_bytes_def uninit_u16_def sys_put_le16_def
  EIO_def EINVAL_def c_true_def c_false_def BQ35100_FLASH_WRITE_DELAY_def Let_def upt_rec

lemmas run_simps = bq35100_set_security_mode.simps set_security_loop.simps
  set_security_switch.simps bq35100_read_extended_data.simps read_extended_transfer_def
  bq35100_get_security_mode_def bq35100_write_extended_data_def write_extended_transfer_def
  bq35100_wait_for_status_def wait_for_status_loop.simps
  char_int_def char_u32_def size_t_of_int_def example_defs_def bus_script_def bus_simps

text \<open>
  The frame a device sends for the four bytes 12 34 56 78 stored at 0x41D0: address echo,
  payload, padding, checksum over the first six bytes, length byte 8.
\<close>

definition full_access_frame :: "u8 list" where
  "full_access_frame = [0xD0, 0x41, 0x12, 0x34, 0x56, 0x78] @ replicate 28 0 @ [0xDA, 0x08]"

lemma frame_bytes: "full_access_frame = [0xD0, 0x41, 0x12, 0x34, 0x56, 0x78,
   0,0,0,0,0,0,0, 0,0,0,0,0,0,0, 0,0,0,0,0,0,0, 0,0,0,0,0,0,0, 0xDA, 0x08]"
  by (simp add: full_access_frame_def eval_nat_numeral)

lemma frame_checksum: "bq35100_compute_checksum (Some full_access_frame) 6 = Inr 0xDA"
  unfolding frame_bytes by code_simp

lemma transfer_run:
  "read_extended_transfer example_defs 0x41D0 [0x3E, 0, 0, 0] 4
     \<lparr>g_security_mode = SECURITY_UNSEALED,
      i2c_replies = Reply 0 [] # Reply 0 [] # Reply 0 full_access_frame # rest,
      i2c_log = lg\<rparr>
   = Inr (0, [0x12, 0x34, 0x56, 0x78], \<lparr>g_security_mode = SECURITY_UNSEALED,
      i2c_replies = rest,
      i2c_log = lg @ [I2C_Write [0x3E, 0xD0, 0x41], I2C_Write [0x3E], I2C_Read 36]\<rparr>)"
  unfolding frame_bytes
  by (simp add: read_extended_transfer_def example_defs_def bus_simps char_int_def
        size_t_of_int_def frame_checksum [unfolded frame_bytes])

lemma read_run:
  "bq35100_read_extended_data example_defs 0x41D0 (Some [0x3E, 0, 0, 0]) 4
     \<lparr>g_security_mode = SECURITY_UNSEALED,
      i2c_replies = Reply 0 [] # Reply 0 [] # Reply 0 full_access_frame # rest,
      i2c_log = lg\<rparr>
   = Inr (0, Some [0x12, 0x34, 0x56, 0x78], \<lparr>g_security_mode = SECURITY_UNSEALED,
      i2c_replies = rest,
      i2c_log = lg @ [I2C_Write [0x3E, 0xD0, 0x41], I2C_Write [0x3E], I2C_Read 36]\<rparr>)"
  by (subst bq35100_read_extended_data.simps) (simp add: transfer_run)

lemma full_defs: "FLASH_FULL_ACCESS_CODES example_defs = 0x41D0" "REG_MAC example_defs = 0x3E"
  "uninit_bytes example_defs 4 = [0, 0, 0, 0]" "MAX_RETRIES example_defs = 3"
  "char_signed example_defs = False" "REG_CONTROL_STATUS example_defs = 0"
  by (simp_all add: example_defs_def uninit_bytes_def upt_rec)

lemma switch_run:
  "set_security_switch example_defs SECURITY_FULL_ACCESS r [0x3E, 0, 0, 0]
     \<lparr>g_security_mode = SECURITY_UNSEALED,
      i2c_replies = Reply 0 [] # Reply 0 [] # Reply 0 full_access_frame # Reply 0 [] # Reply 0 [] # rest,
      i2c_log = lg\<rparr>
   = Inr (Break 0, [0x12, 0x78, 0x56, 0x78], \<lparr>g_security_mode = SECURITY_UNSEALED,
      i2c_replies = rest,
      i2c_log = lg @ [I2C_Write [0x3E, 0xD0, 0x41], I2C_Write [0x3E], I2C_Read 36,
                      I2C_Write [0x12, 0x34, 0x12], I2C_Write [0x12, 0x78, 0x56]]\<rparr>)"
  by (subst set_security_switch.simps)
     (simp add: full_defs read_run char_u32_def bq35100_write_def i2c_write_dt_def next_reply_def Let_def)

lemma verify_run:
  "bq35100_get_security_mode example_defs
     \<lparr>g_security_mode = SECURITY_UNSEALED,
      i2c_replies = [Reply 0 [], Reply 0 [0x00, 0x20], Reply 0 [], Reply 0 [0x00, 0x20]],
      i2c_log = lg\<rparr>
   = (0, \<lparr>g_security_mode = SECURITY_FULL_ACCESS, i2c_replies = [],
      i2c_log = lg @ [I2C_Write [0x00], I2C_Read 2, I2C_Write [0x00], I2C_Read 2]\<rparr>)"
  by (simp add: bq35100_get_security_mode_def example_defs_def bus_simps)

lemma full_access_run:
  "bq35100_set_security_mode example_defs SECURITY_FULL_ACCESS
     \<lparr>g_security_mode = SECURITY_UNSEALED,
      i2c_replies = [Reply 0 [], Reply 0 [], Reply 0 full_access_frame, Reply 0 [], Reply 0 [],
                     Reply 0 [], Reply 0 [0x00, 0x20], Reply 0 [], Reply 0 [0x00, 0x20]],
      i2c_log = lg\<rparr>
   = Inr (0, \<lparr>g_security_mode = SECURITY_FULL_ACCESS, i2c_replies = [],
          i2c_log = lg @ [I2C_Write [0x3E, 0xD0, 0x41], I2C_Write [0x3E], I2C_Read 36,
                     I2C_Write [0x12, 0x34, 0x12], I2C_Write [0x12, 0x78, 0x56],
                     I2C_Write [0x00], I2C_Read 2, I2C_Write [0x00], I2C_Read 2]\<rparr>)"
  by (subst bq35100_set_security_mode.simps, subst set_security_loop.simps,
      subst set_security_loop.simps)
     (simp add: full_defs switch_run verify_run EINVAL_def)

lemma unseal_run:
  "bq35100_set_security_mode example_defs SECURITY_UNSEALED
     (bus_script SECURITY_SEALED
        ([Reply 0 [], Reply 0 [], Reply 0 [], Reply 0 [0x00, 0x40], Reply 0 [], Reply 0 [0x00, 0x40]] @ rest))
   = Inr (0, \<lparr>g_security_mode = SECURITY_UNSEALED, i2c_replies = rest,
          i2c_log = [I2C_Write [0x00, 0x14, 0x04], Sleep 100, I2C_Write [0x00, 0x72, 0x36],
                     I2C_Write [0x00], I2C_Read 2, I2C_Write [0x00], I2C_Read 2]\<rparr>)"
  by (simp add: run_simps)

section \<open>Status polling on the code\<close>

text \<open>
  \<open>bq35100_get_status\<close> returns 0 when the read worked, so the test
  \<open>!bq35100_get_status(...)\<close> is true exactly then: the first status that is read ends the
  wait with \<open>false\<close>, the integer 0, whatever the status is.
\<close>

lemma wait_for_status_read_ok:
  assumes "0 < MAX_RETRIES defs" "bq35100_get_status defs (uninit_u16 defs) s = (0, st, s1)"
  shows "bq35100_wait_for_status defs expected mask_bits millis s = (c_false, s1)"
  unfolding bq35100_wait_for_status_def
  using assms by (subst wait_for_status_loop.simps) simp

text \<open>
  C1 on the code. With the gauge-running bit expected and a device that reports status
  0x0000, the wait returns 0 after one read, with no match and no retry; with a bus on
  which every status read fails it sleeps after each attempt and returns \<open>-EINVAL\<close>.
\<close>

theorem wait_for_status_succeeds_without_match:
  "bq35100_wait_for_status example_defs 0x0001 0x0001 500
     (bus_script SECURITY_UNSEALED [Reply 0 [], Reply 0 [0x00, 0x00]])
   = (0, \<lparr>g_security_mode = SECURITY_UNSEALED, i2c_replies = [],
          i2c_log = [I2C_Write [0x00], I2C_Read 2]\<rparr>)
   \<and> bq35100_wait_for_status example_defs 0x0001 0x0001 500
     (bus_script SECURITY_UNSEALED [Reply (- 5) [], Reply (- 5) [], Reply (- 5) []])
   = (- 22, \<lparr>g_security_mode = SECURITY_UNSEALED, i2c_replies = [],
          i2c_log = [I2C_Write [0x00], Sleep 500, I2C_Write [0x00], Sleep 500,
                     I2C_Write [0x00], Sleep 500]\<rparr>)"
  by (simp add: run_simps)

section \<open>Extended-memory write on the code\<close>

lemma write_extended_data_rejected_args:
  assumes "g_security_mode s = SECURITY_UNKNOWN \<or> address < 0x4000 \<or> 0x43FF < address
           \<or> len < 1 \<or> 32 < len"
  shows "bq35100_write_extended_data defs address data len s = Inr (0, s)"
  using assms by (auto simp: bq35100_write_extended_data_def c_false_def Let_def)

text \<open>
  C2 on the code. With the security mode unknown, with an address below 0x4000 and with
  an empty payload, the write makes no transfer and returns \<open>false\<close>, the integer 0; the
  read of the same unknown-mode device returns \<open>-EINVAL\<close>.
\<close>

theorem write_extended_data_bad_input_returns_zero:
  "bq35100_write_extended_data example_defs 0x4000 (Some [0x07, 0xD0]) 2
     (bus_script SECURITY_UNKNOWN []) = Inr (0, bus_script SECURITY_UNKNOWN [])
   \<and> bq35100_write_extended_data example_defs 0x3FFF (Some [0x07, 0xD0]) 2
     (bus_script SECURITY_UNSEALED []) = Inr (0, bus_script SECURITY_UNSEALED [])
   \<and> bq35100_write_extended_data example_defs 0x4000 (Some []) 0
     (bus_script SECURITY_UNSEALED []) = Inr (0, bus_script SECURITY_UNSEALED [])
   \<and> bq35100_read_extended_data example_defs 0x4000 (Some [0, 0]) 2
     (bus_script SECURITY_UNKNOWN []) = Inr (- 22, Some [0, 0], bus_script SECURITY_UNKNOWN [])"
  by (simp add: run_simps)

text \<open>
  C3 on the code. All three transfers succeed and the status read back is 0xC000, bit 15
  set: the write returns 0.
\<close>

theorem write_extended_data_bit15_returns_zero:
  "bq35100_write_extended_data example_defs 0x4000 (Some [0x07, 0xD0]) 2
     (bus_script SECURITY_UNSEALED [Reply 0 [], Reply 0 [], Reply 0 [], Reply 0 [0x00, 0xC0]])
   = Inr (0, \<lparr>g_security_mode = SECURITY_UNSEALED, i2c_replies = [],
          i2c_log = [I2C_Write [0x3E, 0x00, 0x40, 0x07, 0xD0], Sleep 100,
                     I2C_Write [0x60, 0xE8, 0x06], Sleep 100,
                     I2C_Write [0x00], I2C_Read 2]\<rparr>)"
  by (simp add: run_simps bq35100_compute_checksum_def checksum_loop.simps)

section \<open>Security transitions\<close>

text \<open>
  A \<open>return\<close> inside the switch always carries a nonzero code, and a mode change that
  returns 0 has verified the requested mode on the device and stored it.
\<close>

lemma switch_return_nonzero:
  "set_security_switch defs m result buffer s = Inr (Return r, b, s') \<Longrightarrow> r \<noteq> 0"
  by (cases m)
     (auto simp: set_security_switch.simps Let_def
           split: sum.splits prod.splits if_splits option.splits)

lemma loop_success_mode:
  assumes "set_security_loop defs m i result buffer s = Inr (0, s')" "result \<noteq> 0"
  shows "g_security_mode s' = m \<and> i < MAX_RETRIES defs"
proof -
  have run: "i < MAX_RETRIES defs"
    using assms by (subst (asm) set_security_loop.simps) (auto split: if_splits)
  show ?thesis
  proof (cases "set_security_switch defs m result (buffer[0 := REG_MAC defs]) s")
    case (Inl f)
    with assms run show ?thesis by (subst (asm) set_security_loop.simps) simp
  next
    case (Inr t)
    obtain e b1 s1 where t: "t = (e, b1, s1)" by (cases t)
    show ?thesis
    proof (cases e)
      case (Return r)
      with Inr t have "r \<noteq> 0" by (auto dest: switch_return_nonzero)
      with assms run Inr t Return show ?thesis
        by (subst (asm) set_security_loop.simps) simp
    next
      case (Break r1)
      obtain r2 s2 where g: "bq35100_get_security_mode defs s1 = (r2, s2)"
        by (cases "bq35100_get_security_mode defs s1")
      from assms run Inr t Break g
      have "(if r2 \<noteq> 0 then Inr (r2, s2)
             else if g_security_mode s2 = m
                  then set_security_loop defs m (i + 1) r2 b1 s2
                  else Inr (- EIO, s2)) = Inr (0, s')"
        by (subst (asm) set_security_loop.simps) simp
      then have "r2 = 0" "g_security_mode s2 = m"
         "set_security_loop defs m (i + 1) 0 b1 s2 = Inr (0, s')"
        by (auto split: if_splits simp: EIO_def)
      then have "s' = s2" by (subst (asm) set_security_loop.simps) simp
      with \<open>g_security_mode s2 = m\<close> run show ?thesis by simp
    qed
  qed
qed

lemma set_security_mode_success:
  assumes "bq35100_set_security_mode defs m s = Inr (0, s')"
  shows "g_security_mode s' = m"
proof (cases "m = g_security_mode s")
  case True
  with assms show ?thesis by (subst (asm) bq35100_set_security_mode.simps) simp
next
  case False
  with assms have "set_security_loop defs m 0 (- EINVAL) (uninit_bytes defs 4) s = Inr (0, s')"
    by (subst (asm) bq35100_set_security_mode.simps) (auto split: if_splits simp: EINVAL_def)
  then show ?thesis using loop_success_mode [of defs m 0 "- EINVAL"] by (simp add: EINVAL_def)
qed

lemma set_security_mode_same:
  "bq35100_set_security_mode defs (g_security_mode s) s = Inr (0, s)"
  by (subst bq35100_set_security_mode.simps) simp

text \<open>
  C8. A request for the mode that is already tracked returns 0 at once and leaves the
  state as it is: nothing is sent, read or slept. So when a request for mode \<open>m\<close> has
  returned 0, the same request made again returns 0 and changes nothing.
\<close>

theorem set_mode_idempotent:
  "bq35100_set_security_mode defs (g_security_mode s) s = Inr (0, s)
   \<and> (bq35100_set_security_mode defs m s = Inr (0, s1)
        \<longrightarrow> bq35100_set_security_mode defs m s1 = Inr (0, s1))"
  using set_security_mode_success [of defs m s s1] set_security_mode_same [of defs s1]
  by (auto simp: set_security_mode_same)

lemma unseal_only_run:
  "bq35100_set_security_mode example_defs SECURITY_UNSEALED
     (bus_script SECURITY_SEALED
        [Reply 0 [], Reply 0 [], Reply 0 [], Reply 0 [0x00, 0x40], Reply 0 [], Reply 0 [0x00, 0x40]])
   = Inr (0, \<lparr>g_security_mode = SECURITY_UNSEALED, i2c_replies = [],
          i2c_log = [I2C_Write [0x00, 0x14, 0x04], Sleep 100, I2C_Write [0x00, 0x72, 0x36],
                     I2C_Write [0x00], I2C_Read 2, I2C_Write [0x00], I2C_Read 2]\<rparr>)"
  using unseal_run [of "[]"] by simp

text \<open>
  An unseal from Sealed on a device that accepts it, and the same request once more: the
  second call adds nothing to the log.
\<close>

theorem set_mode_idempotent_witness:
  "bq35100_set_security_mode example_defs SECURITY_UNSEALED
     (bus_script SECURITY_SEALED
        [Reply 0 [], Reply 0 [], Reply 0 [], Reply 0 [0x00, 0x40], Reply 0 [], Reply 0 [0x00, 0x40]])
   = Inr (0, \<lparr>g_security_mode = SECURITY_UNSEALED, i2c_replies = [],
          i2c_log = [I2C_Write [0x00, 0x14, 0x04], Sleep 100, I2C_Write [0x00, 0x72, 0x36],
                     I2C_Write [0x00], I2C_Read 2, I2C_Write [0x00], I2C_Read 2]\<rparr>)
   \<and> bq35100_set_security_mode example_defs SECURITY_UNSEALED
      \<lparr>g_security_mode = SECURITY_UNSEALED, i2c_replies = [],
          i2c_log = [I2C_Write [0x00, 0x14, 0x04], Sleep 100, I2C_Write [0x00, 0x72, 0x36],
                     I2C_Write [0x00], I2C_Read 2, I2C_Write [0x00], I2C_Read 2]\<rparr>
   = Inr (0, \<lparr>g_security_mode = SECURITY_UNSEALED, i2c_replies = [],
          i2c_log = [I2C_Write [0x00, 0x14, 0x04], Sleep 100, I2C_Write [0x00, 0x72, 0x36],
                     I2C_Write [0x00], I2C_Read 2, I2C_Write [0x00], I2C_Read 2]\<rparr>)"
proof (rule conjI)
  show r: "bq35100_set_security_mode example_defs SECURITY_UNSEALED
     (bus_script SECURITY_SEALED
        [Reply 0 [], Reply 0 [], Reply 0 [], Reply 0 [0x00, 0x40], Reply 0 [], Reply 0 [0x00, 0x40]])
   = Inr (0, \<lparr>g_security_mode = SECURITY_UNSEALED, i2c_replies = [],
          i2c_log = [I2C_Write [0x00, 0x14, 0x04], Sleep 100, I2C_Write [0x00, 0x72, 0x36],
                     I2C_Write [0x00], I2C_Read 2, I2C_Write [0x00], I2C_Read 2]\<rparr>)"
    by (rule unseal_only_run)
  show "bq35100_set_security_mode example_defs SECURITY_UNSEALED
      \<lparr>g_security_mode = SECURITY_UNSEALED, i2c_replies = [],
          i2c_log = [I2C_Write [0x00, 0x14, 0x04], Sleep 100, I2C_Write [0x00, 0x72, 0x36],
                     I2C_Write [0x00], I2C_Read 2, I2C_Write [0x00], I2C_Read 2]\<rparr>
   = Inr (0, \<lparr>g_security_mode = SECURITY_UNSEALED, i2c_replies = [],
          i2c_log = [I2C_Write [0x00, 0x14, 0x04], Sleep 100, I2C_Write [0x00, 0x72, 0x36],
                     I2C_Write [0x00], I2C_Read 2, I2C_Write [0x00], I2C_Read 2]\<rparr>)"
    by (rule mp [OF conjunct2 [OF set_mode_idempotent] r])
qed

text \<open>
  An extended-memory read that starts in a mode other than Sealed ends in the mode it
  started in, and the FullAccess branch of the switch, entered Unsealed, reads the codes
  and sends both halves of the key with the tracked mode still Unsealed.
\<close>

lemma read_extended_data_keeps_mode:
  assumes "g_security_mode u \<noteq> SECURITY_SEALED"
    and "bq35100_read_extended_data defs address data len u = Inr (r, d, u')"
  shows "g_security_mode u' = g_security_mode u"
  using assms
  by (subst (asm) bq35100_read_extended_data.simps)
     (auto split: if_splits sum.splits prod.splits dest: read_extended_transfer_mode)

lemma full_access_switch_keeps_mode:
  assumes "g_security_mode u = SECURITY_UNSEALED"
    and "set_security_switch defs SECURITY_FULL_ACCESS r b u = Inr (e, b', u')"
  shows "g_security_mode u' = SECURITY_UNSEALED"
proof -
  from assms(2) obtain r2 d u2 where
    rd: "bq35100_read_extended_data defs (FLASH_FULL_ACCESS_CODES defs) (Some b) 4 u = Inr (r2, d, u2)"
    using assms(1)
    by (subst (asm) set_security_switch.simps) (auto split: sum.splits prod.splits)
  then have m2: "g_security_mode u2 = SECURITY_UNSEALED"
    using assms(1) read_extended_data_keeps_mode [of u defs] by simp
  from assms rd m2 show ?thesis
    by (subst (asm) set_security_switch.simps)
       (auto simp: Let_def split: if_splits prod.splits dest!: bq35100_write_mode)
qed

text \<open>
  C9. When the tracked mode is Sealed, a request for FullAccess is the request for
  Unsealed followed, only if that returned 0, by the request for FullAccess made from
  the state it left, in which the tracked mode is Unsealed; if the unseal fails, its code
  and its state are the result and nothing more is sent. The FullAccess branch, entered
  Unsealed, keeps the tracked mode Unsealed until the verification after the switch, so
  the full-access codes are read and sent while the tracked mode is Unsealed, never
  Sealed.
\<close>

theorem full_access_traverses_unsealed:
  assumes sealed: "g_security_mode s = SECURITY_SEALED"
  shows "bq35100_set_security_mode defs SECURITY_FULL_ACCESS s =
          (case bq35100_set_security_mode defs SECURITY_UNSEALED s of
             Inl f \<Rightarrow> Inl f
           | Inr (result, s1) \<Rightarrow>
               if result \<noteq> 0 then Inr (result, s1)
               else bq35100_set_security_mode defs SECURITY_FULL_ACCESS s1)
         \<and> (\<forall>s1. bq35100_set_security_mode defs SECURITY_UNSEALED s = Inr (0, s1)
                \<longrightarrow> g_security_mode s1 = SECURITY_UNSEALED)
         \<and> (\<forall>u r b e b' u'. g_security_mode u = SECURITY_UNSEALED
                \<longrightarrow> set_security_switch defs SECURITY_FULL_ACCESS r b u = Inr (e, b', u')
                \<longrightarrow> g_security_mode u' = SECURITY_UNSEALED)"
proof (intro conjI allI impI)
  fix s1
  assume "bq35100_set_security_mode defs SECURITY_UNSEALED s = Inr (0, s1)"
  then show "g_security_mode s1 = SECURITY_UNSEALED" by (rule set_security_mode_success)
next
  fix u r b e b' u'
  assume "g_security_mode u = SECURITY_UNSEALED"
    and "set_security_switch defs SECURITY_FULL_ACCESS r b u = Inr (e, b', u')"
  then show "g_security_mode u' = SECURITY_UNSEALED" by (rule full_access_switch_keeps_mode)
next
  let ?buf = "(uninit_bytes defs 4)[0 := REG_MAC defs]"
  have full: "bq35100_set_security_mode defs SECURITY_FULL_ACCESS s
      = set_security_loop defs SECURITY_FULL_ACCESS 0 (- EINVAL) (uninit_bytes defs 4) s"
    using sealed by (subst bq35100_set_security_mode.simps) simp
  have unsl: "bq35100_set_security_mode defs SECURITY_UNSEALED s
      = set_security_loop defs SECURITY_UNSEALED 0 (- EINVAL) (uninit_bytes defs 4) s"
    using sealed by (subst bq35100_set_security_mode.simps) simp
  show "bq35100_set_security_mode defs SECURITY_FULL_ACCESS s =
          (case bq35100_set_security_mode defs SECURITY_UNSEALED s of
             Inl f \<Rightarrow> Inl f
           | Inr (result, s1) \<Rightarrow>
               if result \<noteq> 0 then Inr (result, s1)
               else bq35100_set_security_mode defs SECURITY_FULL_ACCESS s1)"
  proof (cases "0 < MAX_RETRIES defs")
    case False
    then have "set_security_loop defs SECURITY_FULL_ACCESS 0 (- EINVAL) (uninit_bytes defs 4) s
                 = Inr (- EINVAL, s)"
         "set_security_loop defs SECURITY_UNSEALED 0 (- EINVAL) (uninit_bytes defs 4) s
                 = Inr (- EINVAL, s)"
      by (subst set_security_loop.simps, simp)+
    then show ?thesis by (simp add: full unsl EINVAL_def)
  next
    case True
    show ?thesis
    proof (cases "bq35100_set_security_mode defs SECURITY_UNSEALED s")
      case (Inl f)
      then have "set_security_switch defs SECURITY_FULL_ACCESS (- EINVAL) ?buf s = Inl f"
        using sealed by (subst set_security_switch.simps) simp
      then have "set_security_loop defs SECURITY_FULL_ACCESS 0 (- EINVAL) (uninit_bytes defs 4) s
                   = Inl f"
        using True by (subst set_security_loop.simps) (simp add: EINVAL_def)
      with Inl show ?thesis by (simp add: full)
    next
      case (Inr t)
      obtain r1 s1 where t: "t = (r1, s1)" by (cases t)
      show ?thesis
      proof (cases "r1 = 0")
        case False
        then have "set_security_switch defs SECURITY_FULL_ACCESS (- EINVAL) ?buf s
                     = Inr (Return r1, ?buf, s1)"
          using sealed Inr t by (subst set_security_switch.simps) simp
        then have "set_security_loop defs SECURITY_FULL_ACCESS 0 (- EINVAL) (uninit_bytes defs 4) s
                   = Inr (r1, s1)"
          using True by (subst set_security_loop.simps) (simp add: EINVAL_def)
        with Inr t False show ?thesis by (simp add: full)
      next
        case r0: True
        have m1: "g_security_mode s1 = SECURITY_UNSEALED"
          using Inr t r0 set_security_mode_success [of defs SECURITY_UNSEALED s s1] by simp
        have sw: "set_security_switch defs SECURITY_FULL_ACCESS (- EINVAL) ?buf s
                   = set_security_switch defs SECURITY_FULL_ACCESS (- EINVAL) ?buf s1"
          unfolding set_security_switch.simps(2) [of defs "- EINVAL" ?buf s]
                    set_security_switch.simps(2) [of defs "- EINVAL" ?buf s1]
          using sealed Inr t r0 m1 by simp
        have "set_security_loop defs SECURITY_FULL_ACCESS 0 (- EINVAL) (uninit_bytes defs 4) s
               = set_security_loop defs SECURITY_FULL_ACCESS 0 (- EINVAL) (uninit_bytes defs 4) s1"
          unfolding set_security_loop.simps [of defs SECURITY_FULL_ACCESS 0 "- EINVAL" "uninit_bytes defs 4" s]
                    set_security_loop.simps [of defs SECURITY_FULL_ACCESS 0 "- EINVAL" "uninit_bytes defs 4" s1]
          using True sw by (simp add: EINVAL_def)
        moreover have "bq35100_set_security_mode defs SECURITY_FULL_ACCESS s1
            = set_security_loop defs SECURITY_FULL_ACCESS 0 (- EINVAL) (uninit_bytes defs 4) s1"
          using m1 by (subst bq35100_set_security_mode.simps) simp
        ultimately show ?thesis using Inr t r0 by (simp add: full)
      qed
    qed
  qed
qed

text \<open>
  A run from Sealed on a device that accepts both transitions: the two halves of the
  unseal key and the verification come first, then the read of the codes and the two
  key writes.
\<close>

theorem full_access_traverses_unsealed_witness:
  "g_security_mode (bus_script SECURITY_SEALED
       ([Reply 0 [], Reply 0 [], Reply 0 [], Reply 0 [0x00, 0x40], Reply 0 [], Reply 0 [0x00, 0x40]]
        @ [Reply 0 [], Reply 0 [], Reply 0 full_access_frame, Reply 0 [], Reply 0 [],
           Reply 0 [], Reply 0 [0x00, 0x20], Reply 0 [], Reply 0 [0x00, 0x20]]))
     = SECURITY_SEALED
   \<and> bq35100_set_security_mode example_defs SECURITY_FULL_ACCESS
      (bus_script SECURITY_SEALED
       ([Reply 0 [], Reply 0 [], Reply 0 [], Reply 0 [0x00, 0x40], Reply 0 [], Reply 0 [0x00, 0x40]]
        @ [Reply 0 [], Reply 0 [], Reply 0 full_access_frame, Reply 0 [], Reply 0 [],
           Reply 0 [], Reply 0 [0x00, 0x20], Reply 0 [], Reply 0 [0x00, 0x20]]))
     = Inr (0, \<lparr>g_security_mode = SECURITY_FULL_ACCESS, i2c_replies = [],
          i2c_log = [I2C_Write [0x00, 0x14, 0x04], Sleep 100, I2C_Write [0x00, 0x72, 0x36],
                     I2C_Write [0x00], I2C_Read 2, I2C_Write [0x00], I2C_Read 2]
                    @ [I2C_Write [0x3E, 0xD0, 0x41], I2C_Write [0x3E], I2C_Read 36,
                       I2C_Write [0x12, 0x34, 0x12], I2C_Write [0x12, 0x78, 0x56],
                       I2C_Write [0x00], I2C_Read 2, I2C_Write [0x00], I2C_Read 2]\<rparr>)"
proof (rule conjI)
  show sealed: "g_security_mode (bus_script SECURITY_SEALED
       ([Reply 0 [], Reply 0 [], Reply 0 [], Reply 0 [0x00, 0x40], Reply 0 [], Reply 0 [0x00, 0x40]]
        @ [Reply 0 [], Reply 0 [], Reply 0 full_access_frame, Reply 0 [], Reply 0 [],
           Reply 0 [], Reply 0 [0x00, 0x20], Reply 0 [], Reply 0 [0x00, 0x20]]))
     = SECURITY_SEALED"
    by (simp add: bus_script_def)
  show "bq35100_set_security_mode example_defs SECURITY_FULL_ACCESS
      (bus_script SECURITY_SEALED
       ([Reply 0 [], Reply 0 [], Reply 0 [], Reply 0 [0x00, 0x40], Reply 0 [], Reply 0 [0x00, 0x40]]
        @ [Reply 0 [], Reply 0 [], Reply 0 full_access_frame, Reply 0 [], Reply 0 [],
           Reply 0 [], Reply 0 [0x00, 0x20], Reply 0 [], Reply 0 [0x00, 0x20]]))
     = Inr (0, \<lparr>g_security_mode = SECURITY_FULL_ACCESS, i2c_replies = [],
          i2c_log = [I2C_Write [0x00, 0x14, 0x04], Sleep 100, I2C_Write [0x00, 0x72, 0x36],
                     I2C_Write [0x00], I2C_Read 2, I2C_Write [0x00], I2C_Read 2]
                    @ [I2C_Write [0x3E, 0xD0, 0x41], I2C_Write [0x3E], I2C_Read 36,
                       I2C_Write [0x12, 0x34, 0x12], I2C_Write [0x12, 0x78, 0x56],
                       I2C_Write [0x00], I2C_Read 2, I2C_Write [0x00], I2C_Read 2]\<rparr>)"
    by (subst conjunct1 [OF full_access_traverses_unsealed [OF sealed]])
       (simp only: unseal_run full_access_run sum.case prod.case refl if_False simp_thms)
qed

end
